theory Spec2Isabelle
  imports Main "HOL-Library.Sublist"
begin

section \<open>Python values the filters work on\<close>

text \<open>
  \<^verbatim>\<open>zipdoc.py\<close> is a pair of Mercurial data filters. \<^verbatim>\<open>zipdocencode\<close> rewrites a
  ZIP document so that every member is stored uncompressed and every XML member has a
  line break between adjacent tags; \<^verbatim>\<open>zipdocdecode\<close> compresses the members again and
  removes the line breaks. A Python \<^verbatim>\<open>bytes\<close> object is a list of 8-bit characters.
\<close>

type_synonym bytes = string

text \<open>
  The exceptions that matter to the filters: \<^verbatim>\<open>zipfile.BadZipfile\<close>, the only one the
  source catches; \<^verbatim>\<open>TypeError\<close>, raised by Python's \<open>+\<close> and \<open>%\<close> on a \<^verbatim>\<open>str\<close> and a
  \<^verbatim>\<open>bytes\<close> operand; and any other exception of the archive library. A message and
  the \<^verbatim>\<open>filename\<close> keyword argument are Python objects that are a \<^verbatim>\<open>str\<close> or a
  \<^verbatim>\<open>bytes\<close>: the source does not fix which, and Mercurial on Python 3 passes file
  names as \<^verbatim>\<open>bytes\<close>.
\<close>

datatype exn = BadZipfile | TypeError | OtherException string

datatype pystr = Str string | Bytes bytes

text \<open>
  Python's \<open>a + b\<close> on these objects, the \<^verbatim>\<open>repr\<close> of a \<^verbatim>\<open>bytes\<close> object (what \<^verbatim>\<open>%s\<close>
  in a \<^verbatim>\<open>str\<close> format makes of it), and \<open>fmt % arg\<close> with a single argument. The
  formats of the source hold one \<^verbatim>\<open>%s\<close> and no other percent sign; for any other format
  \<open>percent_s\<close> gives \<open>None\<close> and \<open>py_mod\<close> reports \<^verbatim>\<open>TypeError\<close>.
\<close>

fun py_add :: "pystr \<Rightarrow> pystr \<Rightarrow> exn + pystr" where
  "py_add (Str a) (Str b) = Inr (Str (a @ b))"
| "py_add (Bytes a) (Bytes b) = Inr (Bytes (a @ b))"
| "py_add (Str a) (Bytes b) = Inl TypeError"
| "py_add (Bytes a) (Str b) = Inl TypeError"

definition hexdigit :: "nat \<Rightarrow> char" where
  "hexdigit n = ''0123456789abcdef'' ! n"

definition repr_byte :: "char \<Rightarrow> char \<Rightarrow> string" where
  "repr_byte quote c =
     (let n = (of_char c :: nat) in
      if c = quote \<or> c = CHR 0x5C then [CHR 0x5C, c]
      else if c = CHR 0x09 then [CHR 0x5C, CHR ''t'']
      else if c = CHR 0x0A then [CHR 0x5C, CHR ''n'']
      else if c = CHR 0x0D then [CHR 0x5C, CHR ''r'']
      else if n < 32 \<or> 127 \<le> n then [CHR 0x5C, CHR ''x'', hexdigit (n div 16), hexdigit (n mod 16)]
      else [c])"

definition bytes_repr :: "bytes \<Rightarrow> string" where
  "bytes_repr b =
     (let quote = (if CHR 0x27 \<in> set b \<and> CHR 0x22 \<notin> set b then CHR 0x22 else CHR 0x27)
      in CHR ''b'' # quote # concat (map (repr_byte quote) b) @ [quote])"

fun percent_s :: "string \<Rightarrow> string \<Rightarrow> string option" where
  "percent_s [] a = None"
| "percent_s (c # fmt) a =
     (if c = CHR ''%'' then
        (case fmt of
           [] \<Rightarrow> None
         | d # rest \<Rightarrow> if d = CHR ''s'' \<and> CHR ''%'' \<notin> set rest then Some (a @ rest) else None)
      else map_option ((#) c) (percent_s fmt a))"

fun py_mod :: "pystr \<Rightarrow> pystr \<Rightarrow> exn + pystr" where
  "py_mod (Str fmt) (Str a) =
     (case percent_s fmt a of None \<Rightarrow> Inl TypeError | Some m \<Rightarrow> Inr (Str m))"
| "py_mod (Str fmt) (Bytes a) =
     (case percent_s fmt (bytes_repr a) of None \<Rightarrow> Inl TypeError | Some m \<Rightarrow> Inr (Str m))"
| "py_mod (Bytes fmt) (Bytes a) =
     (case percent_s fmt a of None \<Rightarrow> Inl TypeError | Some m \<Rightarrow> Inr (Bytes m))"
| "py_mod (Bytes fmt) (Str a) = Inl TypeError"

text \<open>
  \<^verbatim>\<open>str.lower()\<close> and \<^verbatim>\<open>str.endswith(suffix)\<close>, on member names over 8-bit characters:
  the capital letters are A to Z and, in the upper half, 0xC0 to 0xDE without 0xD7.
\<close>

definition lower_char :: "char \<Rightarrow> char" where
  "lower_char c =
     (let n = (of_char c :: nat) in
      if (65 \<le> n \<and> n \<le> 90) \<or> (192 \<le> n \<and> n \<le> 222 \<and> n \<noteq> 215)
      then char_of (n + 32) else c)"

definition lower :: "string \<Rightarrow> string" where
  "lower s = map lower_char s"

definition endswith :: "string \<Rightarrow> string \<Rightarrow> bool" where
  "endswith s suf = suffix suf s"


text \<open>
  \<^verbatim>\<open>bytes.replace(old, new)\<close>: scanning from the left, every occurrence of \<open>old\<close> that
  does not overlap an earlier one is replaced by \<open>new\<close>. With an empty \<open>old\<close> Python puts
  \<open>new\<close> before every byte and at the end.
\<close>

function replace :: "'a list \<Rightarrow> 'a list \<Rightarrow> 'a list \<Rightarrow> 'a list" where
  "replace old new s =
     (if old = [] then new @ concat (map (\<lambda>c. c # new) s)
      else if s = [] then []
      else if prefix old s then new @ replace old new (drop (length old) s)
      else hd s # replace old new (tl s))"
  by pat_completeness auto
termination
  by (relation "measure (\<lambda>(old, new, s). length s)") auto

declare replace.simps [simp del]


section \<open>The archive library and the diagnostic sink\<close>

text \<open>
  The \<^verbatim>\<open>zipfile\<close> module is not part of the repository. A \<^verbatim>\<open>ZipInfo\<close> object is a
  record of the member name, the compression method, the general purpose flag bits and
  the other fields a writer copies (sizes, checksum and offsets are computed by the
  library when it writes). An archive opened for reading is its \<^verbatim>\<open>infolist()\<close>, each
  entry with what \<^verbatim>\<open>read(info)\<close> gives for it: the content or an exception. An archive
  opened for writing is its default compression and its members in the order they were
  written, each as the \<^verbatim>\<open>ZipInfo\<close> the writer keeps for it and the data.
\<close>

record zipinfo =
  filename :: string
  date_time :: "nat \<times> nat \<times> nat \<times> nat \<times> nat \<times> nat"
  compress_type :: nat
  flag_bits :: nat
  comment :: bytes
  extra :: bytes
  external_attr :: nat

definition ZIP_STORED :: nat where
  "ZIP_STORED = 0"

definition ZIP_DEFLATED :: nat where
  "ZIP_DEFLATED = 8"

type_synonym zipfile_r = "(zipinfo \<times> (exn + bytes)) list"

record zipfile_w =
  compression :: nat
  filelist :: "(zipinfo \<times> bytes) list"

definition ZipFile_w :: "nat \<Rightarrow> zipfile_w" where
  "ZipFile_w c = \<lparr>compression = c, filelist = []\<rparr>"

text \<open>
  \<^verbatim>\<open>writestr(zinfo, data)\<close> with a \<^verbatim>\<open>ZipInfo\<close> argument keeps the compression method of
  \<open>zinfo\<close> and writes through \<^verbatim>\<open>ZipFile._open_to_write\<close>, which changes the object before
  the header is written: the flag bits are reset (only the LZMA end marker is set
  again; the output is a seekable \<^verbatim>\<open>BytesIO\<close>, so no data descriptor is used), and an
  \<^verbatim>\<open>external_attr\<close> of zero becomes \<^verbatim>\<open>0o600 << 16\<close>.
\<close>

definition ZIP_LZMA :: nat where
  "ZIP_LZMA = 14"

definition open_to_write :: "zipinfo \<Rightarrow> zipinfo" where
  "open_to_write zinfo =
     (let zinfo = zinfo\<lparr>flag_bits := (if compress_type zinfo = ZIP_LZMA then 2 else 0)\<rparr>
      in if external_attr zinfo = 0 then zinfo\<lparr>external_attr := 384 * 2 ^ 16\<rparr> else zinfo)"

definition writestr :: "zipfile_w \<Rightarrow> zipinfo \<Rightarrow> bytes \<Rightarrow> zipfile_w" where
  "writestr zf zinfo data = zf\<lparr>filelist := filelist zf @ [(open_to_write zinfo, data)]\<rparr>"

text \<open>
  What the surrounding libraries compute is a parameter of the model:
  \<open>ZipFile_r\<close> is \<^verbatim>\<open>zipfile.ZipFile(BytesIO(s), "r")\<close>, \<open>getvalue\<close> is the content of the
  output buffer once the written archive is closed, \<open>gettext\<close> is Mercurial's \<^verbatim>\<open>_\<close>.
\<close>

record library =
  ZipFile_r :: "bytes \<Rightarrow> exn + zipfile_r"
  getvalue :: "zipfile_w \<Rightarrow> bytes"
  gettext :: "pystr \<Rightarrow> pystr"

text \<open>
  The \<^verbatim>\<open>ui\<close> object is the list of the events it has received; \<^verbatim>\<open>kwargs\<close> holds the
  two keyword arguments the filters read.
\<close>

datatype event = Note pystr | Debug pystr

record kwargs =
  ui :: "event list"
  kw_filename :: pystr

definition ui_note :: "event list \<Rightarrow> pystr \<Rightarrow> event list" where
  "ui_note sink msg = sink @ [Note msg]"

definition ui_debug :: "event list \<Rightarrow> pystr \<Rightarrow> event list" where
  "ui_debug sink msg = sink @ [Debug msg]"

section \<open>The two filters\<close>

text \<open>The two literals of lines 148 and 185: \<^verbatim>\<open>b"><"\<close> and \<^verbatim>\<open>b">\r\n <"\<close>.\<close>

definition tags_adjacent :: bytes where
  "tags_adjacent = [CHR ''>'', CHR ''<'']"

definition tags_split :: bytes where
  "tags_split = [CHR ''>'', CHR 0x0D, CHR 0x0A, CHR '' '', CHR ''<'']"

text \<open>
  Line 148, \<^verbatim>\<open>archive_member.replace(b"><", b">\r\n <")\<close> (the specification's
  \<open>split\<close>), and line 185, \<^verbatim>\<open>archive_member.replace(b">\r\n <", b"><")\<close> (its \<open>join\<close>).
\<close>

definition split_lines :: "bytes \<Rightarrow> bytes" where
  "split_lines archive_member = replace tags_adjacent tags_split archive_member"

definition join_lines :: "bytes \<Rightarrow> bytes" where
  "join_lines archive_member = replace tags_split tags_adjacent archive_member"

text \<open>
  The messages. Line 130 builds the text for a skipped encoding with \<open>+\<close>, inside the
  call of \<^verbatim>\<open>_\<close>; lines 167 to 170 build the one for a skipped decoding with \<open>%\<close>, applied
  to the result of \<^verbatim>\<open>_\<close>, as lines 157 and 194 do for the debug messages.
\<close>

definition skipped_encoding_msg :: "pystr \<Rightarrow> exn + pystr" where
  "skipped_encoding_msg fname =
     (case py_add (Str (''zipdoc: Skipped encoding '' @ [CHR 0x27])) fname of
        Inl e \<Rightarrow> Inl e
      | Inr m1 \<Rightarrow>
          (case py_add m1 (Str ([CHR 0x27] @ '' due to bad ZIP archive. The file is not a ZIP'')) of
             Inl e \<Rightarrow> Inl e
           | Inr m2 \<Rightarrow> py_add m2 (Str ('' (might be a link) or the archive is broken.'' @ [CHR 0x0A]))))"

definition skipped_decoding_fmt :: string where
  "skipped_decoding_fmt =
     ''zipdoc: Skipped decoding '' @ [CHR 0x27] @ ''%s''
     @ [CHR 0x27] @ '' due to bad ZIP archive. The file is not a ZIP''
     @ '' (might be a link) or the archive is broken.'' @ [CHR 0x0A]"

definition encoded_fmt :: string where
  "encoded_fmt = ''zipdoc: Encoded %s'' @ [CHR 0x0A]"

definition decoded_fmt :: string where
  "decoded_fmt = ''zipdoc: Decoded %s'' @ [CHR 0x0A]"

text \<open>
  The loop of lines 140 to 150 and the filter around it (lines 113 to 158). A call
  returns the bytes or the exception that leaves it, and the state of the \<^verbatim>\<open>ui\<close> sink.
\<close>

fun encode_members :: "zipfile_r \<Rightarrow> zipfile_w \<Rightarrow> exn + zipfile_w" where
  "encode_members [] uncompressed = Inr uncompressed"
| "encode_members ((archive_member_info, content) # rest) uncompressed =
     (case content of
        Inl e \<Rightarrow> Inl e
      | Inr archive_member \<Rightarrow>
          (let archive_member_info = archive_member_info\<lparr>compress_type := 0\<rparr> in
           if endswith (lower (filename archive_member_info)) ''.xml''
           then encode_members rest
                  (writestr uncompressed archive_member_info
                     (replace tags_adjacent tags_split archive_member))
           else encode_members rest
                  (writestr uncompressed archive_member_info archive_member)))"

definition zipdocencode ::
  "library \<Rightarrow> bytes \<Rightarrow> pystr \<Rightarrow> kwargs \<Rightarrow> (exn + bytes) \<times> event list" where
  "zipdocencode lib s cmd kw =
     (case ZipFile_r lib s of
        Inl BadZipfile \<Rightarrow>
          (case skipped_encoding_msg (kw_filename kw) of
             Inl e \<Rightarrow> (Inl e, ui kw)
           | Inr msg \<Rightarrow> (Inr s, ui_note (ui kw) (gettext lib msg)))
      | Inl e \<Rightarrow> (Inl e, ui kw)
      | Inr zipped \<Rightarrow>
          (case encode_members zipped (ZipFile_w ZIP_STORED) of
             Inl e \<Rightarrow> (Inl e, ui kw)
           | Inr uncompressed \<Rightarrow>
               (let outs = getvalue lib uncompressed in
                case py_mod (gettext lib (Str encoded_fmt)) (kw_filename kw) of
                  Inl e \<Rightarrow> (Inl e, ui kw)
                | Inr msg \<Rightarrow> (Inr outs, ui_debug (ui kw) msg))))"

text \<open>
  Lines 177 to 187 and lines 160 to 195.
\<close>

fun decode_members :: "zipfile_r \<Rightarrow> zipfile_w \<Rightarrow> exn + zipfile_w" where
  "decode_members [] zipped = Inr zipped"
| "decode_members ((archive_member_info, content) # rest) zipped =
     (case content of
        Inl e \<Rightarrow> Inl e
      | Inr archive_member \<Rightarrow>
          (let archive_member_info = archive_member_info\<lparr>compress_type := ZIP_DEFLATED\<rparr> in
           if endswith (lower (filename archive_member_info)) ''.xml''
           then decode_members rest
                  (writestr zipped archive_member_info
                     (replace tags_split tags_adjacent archive_member))
           else decode_members rest
                  (writestr zipped archive_member_info archive_member)))"

definition zipdocdecode ::
  "library \<Rightarrow> bytes \<Rightarrow> pystr \<Rightarrow> kwargs \<Rightarrow> (exn + bytes) \<times> event list" where
  "zipdocdecode lib s cmd kw =
     (case ZipFile_r lib s of
        Inl BadZipfile \<Rightarrow>
          (case py_mod (gettext lib (Str skipped_decoding_fmt)) (kw_filename kw) of
             Inl e \<Rightarrow> (Inl e, ui kw)
           | Inr msg \<Rightarrow> (Inr s, ui_note (ui kw) msg))
      | Inl e \<Rightarrow> (Inl e, ui kw)
      | Inr uncompressed \<Rightarrow>
          (case decode_members uncompressed (ZipFile_w ZIP_DEFLATED) of
             Inl e \<Rightarrow> (Inl e, ui kw)
           | Inr zipped \<Rightarrow>
               (let outs = getvalue lib zipped in
                case py_mod (gettext lib (Str decoded_fmt)) (kw_filename kw) of
                  Inl e \<Rightarrow> (Inl e, ui kw)
                | Inr msg \<Rightarrow> (Inr outs, ui_debug (ui kw) msg))))"


section \<open>Notions used in the statements\<close>

text \<open>
  A member is an XML member when line 145 (line 182) says so. A valid archive is one
  that opens and whose members \<open>ms\<close> all read without an exception: \<open>readable ms\<close>.
  \<open>stored_member\<close> and \<open>deflated_member\<close> are one round of each loop in closed form.
\<close>

abbreviation is_xml :: "string \<Rightarrow> bool" where
  "is_xml name \<equiv> endswith (lower name) ''.xml''"

definition readable :: "(zipinfo \<times> bytes) list \<Rightarrow> zipfile_r" where
  "readable ms = map (\<lambda>(zinfo, data). (zinfo, Inr data)) ms"

definition stored_member :: "zipinfo \<times> bytes \<Rightarrow> zipinfo \<times> bytes" where
  "stored_member m =
     (open_to_write ((fst m)\<lparr>compress_type := 0\<rparr>),
      if is_xml (filename (fst m)) then replace tags_adjacent tags_split (snd m) else snd m)"

definition deflated_member :: "zipinfo \<times> bytes \<Rightarrow> zipinfo \<times> bytes" where
  "deflated_member m =
     (open_to_write ((fst m)\<lparr>compress_type := ZIP_DEFLATED\<rparr>),
      if is_xml (filename (fst m)) then replace tags_split tags_adjacent (snd m) else snd m)"

text \<open>
  A small document for the concrete instances: the scenario of the specification, and
  an archive without XML members and with a repeated name, each as an application
  wrote it and as it reads back once \<^verbatim>\<open>zipdocencode\<close> has written it. The demonstration
  library lays an archive out as the names, methods and contents of its members, opens
  the four buffers of these archives and, like Mercurial's \<^verbatim>\<open>_\<close>, returns messages as
  \<^verbatim>\<open>bytes\<close>.
\<close>

definition demo_info :: "string \<Rightarrow> nat \<Rightarrow> nat \<Rightarrow> nat \<Rightarrow> zipinfo" where
  "demo_info name method flags attr =
     \<lparr>filename = name, date_time = (2023, 5, 17, 9, 30, 0), compress_type = method,
      flag_bits = flags, comment = [], extra = [], external_attr = attr\<rparr>"

definition jpeg_bytes :: bytes where
  "jpeg_bytes = [CHR 0xFF, CHR 0xD8, CHR ''>'', CHR ''<'', CHR 0xFF, CHR 0xD9]"

definition docx_members :: "(zipinfo \<times> bytes) list" where
  "docx_members =
     [(demo_info ''word/document.xml'' ZIP_DEFLATED 8 0, ''<a><b/></a>''),
      (demo_info ''docProps/thumbnail.jpeg'' ZIP_DEFLATED 8 0, jpeg_bytes)]"

definition docx_stored_members :: "(zipinfo \<times> bytes) list" where
  "docx_stored_members =
     [(demo_info ''word/document.xml'' ZIP_STORED 0 25165824,
       ''<a>'' @ [CHR 0x0D, CHR 0x0A] @ '' <b/>'' @ [CHR 0x0D, CHR 0x0A] @ '' </a>''),
      (demo_info ''docProps/thumbnail.jpeg'' ZIP_STORED 0 25165824, jpeg_bytes)]"

definition pics_members :: "(zipinfo \<times> bytes) list" where
  "pics_members =
     [(demo_info ''image.png'' ZIP_DEFLATED 8 0, ''first''),
      (demo_info ''Notes.XML.bak'' ZIP_STORED 0 0, ''<n><m/></n>''),
      (demo_info ''image.png'' ZIP_DEFLATED 8 0, ''second'')]"

definition pics_stored_members :: "(zipinfo \<times> bytes) list" where
  "pics_stored_members =
     [(demo_info ''image.png'' ZIP_STORED 0 25165824, ''first''),
      (demo_info ''Notes.XML.bak'' ZIP_STORED 0 25165824, ''<n><m/></n>''),
      (demo_info ''image.png'' ZIP_STORED 0 25165824, ''second'')]"

definition demo_bytes :: "(zipinfo \<times> bytes) list \<Rightarrow> bytes" where
  "demo_bytes ms =
     ''PK'' @ concat (map (\<lambda>m. (if compress_type (fst m) = ZIP_STORED then ''S'' else ''D'')
                                @ filename (fst m) @ [CHR 0x00] @ snd m @ [CHR 0x00]) ms)"

definition demo_library :: library where
  "demo_library =
     \<lparr>ZipFile_r = (\<lambda>b. if b = demo_bytes docx_members then Inr (readable docx_members)
                      else if b = demo_bytes docx_stored_members
                        then Inr (readable docx_stored_members)
                      else if b = demo_bytes pics_members then Inr (readable pics_members)
                      else if b = demo_bytes pics_stored_members
                        then Inr (readable pics_stored_members)
                      else Inl BadZipfile),
      getvalue = (\<lambda>zf. demo_bytes (filelist zf)),
      gettext = (\<lambda>m. case m of Str x \<Rightarrow> Bytes x | Bytes x \<Rightarrow> Bytes x)\<rparr>"

definition demo_kwargs :: kwargs where
  "demo_kwargs = \<lparr>ui = [], kw_filename = Bytes ''report.docx''\<rparr>"


section \<open>Properties of the two substitutions\<close>

lemma replace_Nil: "old \<noteq> [] \<Longrightarrow> replace old new [] = []"
  by (simp add: replace.simps)

lemma replace_match:
  "old \<noteq> [] \<Longrightarrow> replace old new (old @ s) = new @ replace old new s"
  by (subst replace.simps) simp

lemma replace_skip:
  "old \<noteq> [] \<Longrightarrow> \<not> prefix old (c # s) \<Longrightarrow> replace old new (c # s) = c # replace old new s"
  by (subst replace.simps) simp

lemma replace_absent:
  "old \<noteq> [] \<Longrightarrow> \<not> sublist old s \<Longrightarrow> replace old new s = s"
  by (induction s) (simp_all add: replace_Nil replace_skip sublist_Cons_right)

lemma tags_split_length: "length tags_split = 5"
  by (simp add: tags_split_def)

lemma split_Nil: "split_lines [] = []"
  by (simp add: split_lines_def tags_adjacent_def replace_Nil)

lemma split_match: "split_lines (CHR ''>'' # CHR ''<'' # s) = tags_split @ split_lines s"
  using replace_match [of tags_adjacent tags_split s]
  by (simp add: split_lines_def tags_adjacent_def)

lemma split_skip:
  "\<not> prefix tags_adjacent (c # s) \<Longrightarrow> split_lines (c # s) = c # split_lines s"
  by (simp add: split_lines_def tags_adjacent_def replace_skip)

lemma join_Nil: "join_lines [] = []"
  by (simp add: join_lines_def tags_split_def replace_Nil)

lemma join_match: "join_lines (tags_split @ s) = tags_adjacent @ join_lines s"
  using replace_match [of tags_split tags_adjacent s]
  by (simp add: join_lines_def tags_split_def)

lemma join_skip:
  "\<not> prefix tags_split (c # s) \<Longrightarrow> join_lines (c # s) = c # join_lines s"
  by (simp add: join_lines_def tags_split_def replace_skip)

text \<open>Both substitutions keep the first byte of their input.\<close>

lemma split_hd:
  assumes *: "split_lines s = a # t"
  shows "\<exists>s'. s = a # s'"
proof (cases s)
  case Nil
  with * show ?thesis by (simp add: split_Nil)
next
  case (Cons c s')
  show ?thesis
  proof (cases "prefix tags_adjacent (c # s')")
    case True
    then obtain r where "c # s' = CHR ''>'' # CHR ''<'' # r"
      by (auto simp: prefix_def tags_adjacent_def)
    with * Cons show ?thesis by (simp add: split_match tags_split_def)
  next
    case False
    with * Cons show ?thesis by (simp add: split_skip)
  qed
qed

lemma join_hd:
  assumes *: "join_lines s = a # t"
  shows "\<exists>s'. s = a # s'"
proof (cases s)
  case Nil
  with * show ?thesis by (simp add: join_Nil)
next
  case (Cons c s')
  show ?thesis
  proof (cases "prefix tags_split (c # s')")
    case True
    then obtain r where r: "c # s' = tags_split @ r"
      by (auto simp: prefix_def)
    have "join_lines (c # s') = tags_adjacent @ join_lines r"
      unfolding r by (rule join_match)
    with * Cons r show ?thesis by (simp add: tags_split_def tags_adjacent_def)
  next
    case False
    with * Cons show ?thesis by (simp add: join_skip)
  qed
qed

lemma split_prefix_step:
  assumes "a \<noteq> CHR ''>''" and "split_lines s = a # t"
  shows "\<exists>s'. s = a # s' \<and> t = split_lines s'"
proof -
  from split_hd [OF assms(2)] obtain s' where s: "s = a # s'" by blast
  from assms(1) have "\<not> prefix tags_adjacent (a # s')"
    by (simp add: tags_adjacent_def)
  then have "split_lines (a # s') = a # split_lines s'" by (rule split_skip)
  with assms(2) s show ?thesis by simp
qed

text \<open>
  The five bytes \<^verbatim>\<open>>\r\n <\<close> begin the output of \<open>split_lines\<close> after a byte \<open>c\<close> only
  where they already begin the input: none of CR, LF and the space is touched by the
  substitution.
\<close>

lemma split_starts_split:
  assumes "prefix tags_split (c # split_lines s)"
  shows "prefix tags_split (c # s)"
proof -
  from assms obtain r where r: "c # split_lines s = tags_split @ r"
    by (auto simp: prefix_def)
  then have c: "c = CHR ''>''"
    and 1: "split_lines s = CHR 0x0D # CHR 0x0A # CHR '' '' # CHR ''<'' # r"
    by (simp_all add: tags_split_def)
  from split_prefix_step [OF _ 1] obtain s1 where
    s1: "s = CHR 0x0D # s1" "CHR 0x0A # CHR '' '' # CHR ''<'' # r = split_lines s1" by auto
  from split_prefix_step [OF _ s1(2) [symmetric]] obtain s2 where
    s2: "s1 = CHR 0x0A # s2" "CHR '' '' # CHR ''<'' # r = split_lines s2" by auto
  from split_prefix_step [OF _ s2(2) [symmetric]] obtain s3 where
    s3: "s2 = CHR '' '' # s3" "CHR ''<'' # r = split_lines s3" by auto
  from split_hd [OF s3(2) [symmetric]] obtain s4 where s4: "s3 = CHR ''<'' # s4" by blast
  show ?thesis by (simp add: c s1 s2 s3 s4 tags_split_def)
qed

lemma join_split_absent:
  "\<not> sublist tags_split x \<Longrightarrow> join_lines (split_lines x) = x"
proof (induction x rule: length_induct)
  case (1 x)
  show ?case
  proof (cases x)
    case Nil
    then show ?thesis by (simp add: split_Nil join_Nil)
  next
    case (Cons c s)
    show ?thesis
    proof (cases "prefix tags_adjacent (c # s)")
      case True
      then obtain r where r: "c # s = CHR ''>'' # CHR ''<'' # r"
        by (auto simp: prefix_def tags_adjacent_def)
      have "sublist r x" unfolding Cons r
        by (metis sublist_Cons_right sublist_order.order_refl)
      with "1.prems" have nr: "\<not> sublist tags_split r"
        using sublist_order.order_trans by blast
      have "length r < length x" using Cons r by simp
      with "1.IH" nr have "join_lines (split_lines r) = r" by blast
      then show ?thesis using Cons r
        by (simp add: split_match join_match tags_adjacent_def)
    next
      case False
      from "1.prems" Cons have ns: "\<not> sublist tags_split s"
        and np: "\<not> prefix tags_split (c # s)"
        by (simp_all add: sublist_Cons_right)
      from np have "\<not> prefix tags_split (c # split_lines s)"
        using split_starts_split by blast
      moreover from "1.IH" ns Cons have "join_lines (split_lines s) = s" by simp
      ultimately show ?thesis using Cons False by (simp add: split_skip join_skip)
    qed
  qed
qed

lemma split_no_adjacent: "\<not> sublist tags_adjacent (split_lines x)"
proof (induction x rule: length_induct)
  case (1 x)
  show ?case
  proof (cases x)
    case Nil
    then show ?thesis by (simp add: split_Nil tags_adjacent_def)
  next
    case (Cons c s)
    show ?thesis
    proof (cases "prefix tags_adjacent (c # s)")
      case True
      then obtain r where r: "c # s = CHR ''>'' # CHR ''<'' # r"
        by (auto simp: prefix_def tags_adjacent_def)
      have "length r < length x" using Cons r by simp
      with "1.IH" have "\<not> sublist tags_adjacent (split_lines r)" by blast
      then show ?thesis using Cons r
        by (simp add: split_match tags_split_def tags_adjacent_def sublist_Cons_right)
    next
      case False
      from "1.IH" Cons have ih: "\<not> sublist tags_adjacent (split_lines s)" by simp
      have "\<not> prefix tags_adjacent (c # split_lines s)"
      proof
        assume "prefix tags_adjacent (c # split_lines s)"
        then obtain t where "c = CHR ''>''" "split_lines s = CHR ''<'' # t"
          by (auto simp: prefix_def tags_adjacent_def)
        with split_hd [of s "CHR ''<''" t] False show False
          by (auto simp: tags_adjacent_def)
      qed
      with ih show ?thesis using Cons False
        by (simp add: split_skip sublist_Cons_right)
    qed
  qed
qed

lemma split_join_absent:
  "\<not> sublist tags_adjacent y \<Longrightarrow> split_lines (join_lines y) = y"
proof (induction y rule: length_induct)
  case (1 y)
  show ?case
  proof (cases y)
    case Nil
    then show ?thesis by (simp add: split_Nil join_Nil)
  next
    case (Cons c s)
    show ?thesis
    proof (cases "prefix tags_split (c # s)")
      case True
      then obtain r where r: "c # s = tags_split @ r"
        by (auto simp: prefix_def)
      have "sublist r y" unfolding Cons r by simp
      with "1.prems" have nr: "\<not> sublist tags_adjacent r"
        using sublist_order.order_trans by blast
      have "length r < length y" using Cons r by (simp add: tags_split_def)
      with "1.IH" nr have "split_lines (join_lines r) = r" by blast
      moreover have "join_lines y = tags_adjacent @ join_lines r"
        unfolding Cons r by (rule join_match)
      ultimately show ?thesis using Cons r
        by (simp add: split_match tags_adjacent_def)
    next
      case False
      from "1.prems" Cons have ns: "\<not> sublist tags_adjacent s"
        and np: "\<not> prefix tags_adjacent (c # s)"
        by (simp_all add: sublist_Cons_right)
      have "\<not> prefix tags_adjacent (c # join_lines s)"
      proof
        assume "prefix tags_adjacent (c # join_lines s)"
        then obtain t where "c = CHR ''>''" "join_lines s = CHR ''<'' # t"
          by (auto simp: prefix_def tags_adjacent_def)
        with join_hd [of s "CHR ''<''" t] np show False
          by (auto simp: tags_adjacent_def)
      qed
      moreover from "1.IH" ns Cons have "split_lines (join_lines s) = s" by simp
      ultimately show ?thesis using Cons False by (simp add: split_skip join_skip)
    qed
  qed
qed

section \<open>Properties of the loops and of the filters\<close>

lemma readable_Nil: "readable [] = []"
  by (simp add: readable_def)

lemma readable_Cons: "readable ((zinfo, data) # ms) = (zinfo, Inr data) # readable ms"
  by (simp add: readable_def)

text \<open>What the writer keeps of a \<^verbatim>\<open>ZipInfo\<close>, field by field.\<close>

lemma open_to_write_kept:
  "filename (open_to_write zinfo) = filename zinfo"
  "compress_type (open_to_write zinfo) = compress_type zinfo"
  "date_time (open_to_write zinfo) = date_time zinfo"
  "comment (open_to_write zinfo) = comment zinfo"
  "extra (open_to_write zinfo) = extra zinfo"
  by (simp_all add: open_to_write_def Let_def)

lemma open_to_write_changed:
  "compress_type zinfo \<noteq> ZIP_LZMA \<Longrightarrow>
     open_to_write zinfo =
       zinfo\<lparr>flag_bits := 0,
             external_attr := (if external_attr zinfo = 0 then 25165824 else external_attr zinfo)\<rparr>"
  by (simp add: open_to_write_def Let_def)

lemma stored_member_simps:
  "filename (fst (stored_member m)) = filename (fst m)"
  "compress_type (fst (stored_member m)) = 0"
  "is_xml (filename (fst m)) \<Longrightarrow> snd (stored_member m) = replace tags_adjacent tags_split (snd m)"
  "\<not> is_xml (filename (fst m)) \<Longrightarrow> snd (stored_member m) = snd m"
  by (simp_all add: stored_member_def open_to_write_kept)

lemma deflated_member_simps:
  "filename (fst (deflated_member m)) = filename (fst m)"
  "compress_type (fst (deflated_member m)) = ZIP_DEFLATED"
  "is_xml (filename (fst m)) \<Longrightarrow> snd (deflated_member m) = replace tags_split tags_adjacent (snd m)"
  "\<not> is_xml (filename (fst m)) \<Longrightarrow> snd (deflated_member m) = snd m"
  by (simp_all add: deflated_member_def open_to_write_kept)

lemma encode_members_readable:
  "encode_members (readable ms) zf = Inr (zf\<lparr>filelist := filelist zf @ map stored_member ms\<rparr>)"
proof (induction ms arbitrary: zf)
  case Nil
  show ?case by (simp add: readable_Nil)
next
  case (Cons m ms)
  obtain zinfo data where m: "m = (zinfo, data)" by (cases m)
  show ?case
    by (simp add: m readable_Cons Cons.IH writestr_def stored_member_def)
qed

lemma decode_members_readable:
  "decode_members (readable ms) zf = Inr (zf\<lparr>filelist := filelist zf @ map deflated_member ms\<rparr>)"
proof (induction ms arbitrary: zf)
  case Nil
  show ?case by (simp add: readable_Nil)
next
  case (Cons m ms)
  obtain zinfo data where m: "m = (zinfo, data)" by (cases m)
  show ?case
    by (simp add: m readable_Cons Cons.IH writestr_def deflated_member_def)
qed

lemma encode_members_fresh:
  "encode_members (readable ms) (ZipFile_w c) = Inr w \<longleftrightarrow>
     w = \<lparr>compression = c, filelist = map stored_member ms\<rparr>"
  by (auto simp: encode_members_readable ZipFile_w_def)

lemma decode_members_fresh:
  "decode_members (readable ms) (ZipFile_w c) = Inr w \<longleftrightarrow>
     w = \<lparr>compression = c, filelist = map deflated_member ms\<rparr>"
  by (auto simp: decode_members_readable ZipFile_w_def)

text \<open>The demonstration library on its four buffers and on a buffer that is no archive.\<close>

lemma demo_stored_docx: "map stored_member docx_members = docx_stored_members"
proof -
  have "is_xml ''word/document.xml''" "\<not> is_xml ''docProps/thumbnail.jpeg''"
    by code_simp+
  then show ?thesis
    by (simp add: docx_members_def docx_stored_members_def stored_member_def demo_info_def
        open_to_write_def ZIP_STORED_def ZIP_DEFLATED_def ZIP_LZMA_def
        replace.simps tags_adjacent_def tags_split_def)
qed

lemma demo_stored_pics: "map stored_member pics_members = pics_stored_members"
proof -
  have "\<not> is_xml ''image.png''" "\<not> is_xml ''Notes.XML.bak''"
    by code_simp+
  then show ?thesis
    by (simp add: pics_members_def pics_stored_members_def stored_member_def demo_info_def
        open_to_write_def ZIP_STORED_def ZIP_DEFLATED_def ZIP_LZMA_def)
qed

lemma demo_getvalue: "getvalue demo_library zf = demo_bytes (filelist zf)"
  by (simp add: demo_library_def)

lemma demo_open_docx:
  "ZipFile_r demo_library (demo_bytes docx_members) = Inr (readable docx_members)"
  by (simp add: demo_library_def)

lemma demo_open_docx_stored:
  "ZipFile_r demo_library (demo_bytes docx_stored_members) = Inr (readable docx_stored_members)"
proof -
  have "demo_bytes docx_stored_members \<noteq> demo_bytes docx_members"
    by (simp add: demo_bytes_def docx_members_def docx_stored_members_def demo_info_def
        ZIP_STORED_def ZIP_DEFLATED_def)
  then show ?thesis by (simp add: demo_library_def)
qed

lemma demo_open_pics:
  "ZipFile_r demo_library (demo_bytes pics_members) = Inr (readable pics_members)"
proof -
  have "demo_bytes pics_members \<noteq> demo_bytes docx_members"
    "demo_bytes pics_members \<noteq> demo_bytes docx_stored_members"
    by (simp_all add: demo_bytes_def docx_members_def docx_stored_members_def pics_members_def
        demo_info_def ZIP_STORED_def ZIP_DEFLATED_def)
  then show ?thesis by (simp add: demo_library_def)
qed

lemma demo_open_pics_stored:
  "ZipFile_r demo_library (demo_bytes pics_stored_members) = Inr (readable pics_stored_members)"
proof -
  have "demo_bytes pics_stored_members \<noteq> demo_bytes docx_members"
    "demo_bytes pics_stored_members \<noteq> demo_bytes docx_stored_members"
    "demo_bytes pics_stored_members \<noteq> demo_bytes pics_members"
    by (simp_all add: demo_bytes_def docx_members_def docx_stored_members_def pics_members_def
        pics_stored_members_def demo_info_def ZIP_STORED_def ZIP_DEFLATED_def)
  then show ?thesis by (simp add: demo_library_def)
qed

lemma demo_open_other:
  "ZipFile_r demo_library ''not a zip'' = Inl BadZipfile"
  by (simp add: demo_library_def demo_bytes_def)

lemma zipdocencode_readable:
  assumes "ZipFile_r lib s = Inr (readable ms)"
    and "py_mod (gettext lib (Str encoded_fmt)) (kw_filename kw) = Inr msg"
    and "encode_members (readable ms) (ZipFile_w ZIP_STORED) = Inr w"
  shows "zipdocencode lib s cmd kw = (Inr (getvalue lib w), ui kw @ [Debug msg])"
  using assms by (simp add: zipdocencode_def ui_debug_def)

lemma zipdocdecode_readable:
  assumes "ZipFile_r lib s = Inr (readable ms)"
    and "py_mod (gettext lib (Str decoded_fmt)) (kw_filename kw) = Inr msg"
    and "decode_members (readable ms) (ZipFile_w ZIP_DEFLATED) = Inr w"
  shows "zipdocdecode lib s cmd kw = (Inr (getvalue lib w), ui kw @ [Debug msg])"
  using assms by (simp add: zipdocdecode_def ui_debug_def)

lemma zipdocencode_skip_str:
  assumes "ZipFile_r lib s = Inl BadZipfile" and "kw_filename kw = Str name"
  shows "\<exists>msg. zipdocencode lib s cmd kw = (Inr s, ui kw @ [Note msg])"
  using assms by (simp add: zipdocencode_def skipped_encoding_msg_def ui_note_def)

lemma zipdocdecode_skip:
  assumes "ZipFile_r lib s = Inl BadZipfile"
    and "py_mod (gettext lib (Str skipped_decoding_fmt)) (kw_filename kw) = Inr msg"
  shows "zipdocdecode lib s cmd kw = (Inr s, ui kw @ [Note msg])"
  using assms by (simp add: zipdocdecode_def ui_note_def)

lemma demo_encoded_msg:
  "py_mod (gettext demo_library (Str encoded_fmt)) (kw_filename demo_kwargs)
     = Inr (Bytes (''zipdoc: Encoded report.docx'' @ [CHR 0x0A]))"
  by (simp add: demo_library_def demo_kwargs_def encoded_fmt_def decoded_fmt_def)

lemma demo_decoded_msg:
  "py_mod (gettext demo_library (Str decoded_fmt)) (kw_filename demo_kwargs)
     = Inr (Bytes (''zipdoc: Decoded report.docx'' @ [CHR 0x0A]))"
  by (simp add: demo_library_def demo_kwargs_def encoded_fmt_def decoded_fmt_def)


section \<open>The claims\<close>

text \<open>
  Claim C1. For every byte sequence \<open>x\<close> in which \<^verbatim>\<open>>\r\n <\<close> does not occur, joining the
  split of \<open>x\<close> gives \<open>x\<close> back. The literal \<^verbatim>\<open>>\r\n <\<close> is five bytes long: a greater-than sign, CR, LF,
  a space and a less-than sign (lemma \<open>tags_split_length\<close>).
\<close>

theorem join_split_roundtrip:
  "\<not> sublist tags_split x \<Longrightarrow> join_lines (split_lines x) = x"
  by (rule join_split_absent)

theorem join_split_roundtrip_witness:
  "\<not> sublist tags_split ''<a><b/></a>''
   \<and> join_lines (split_lines ''<a><b/></a>'') = ''<a><b/></a>''"
proof -
  have h: "\<not> sublist tags_split ''<a><b/></a>''"
    by (simp add: tags_split_def sublist_Cons_right)
  from h join_split_roundtrip [OF h] show ?thesis by simp
qed

text \<open>
  Claim C2. Let \<open>z\<close> be a valid archive with members \<open>ms\<close>, none of them an XML member,
  let \<open>w1\<close> be the archive the encoding writes, and let the library read back from the
  bytes of \<open>w1\<close> members \<open>ms'\<close> with the names and the contents that were written (their
  other fields are left open). Then decoding the encoding of \<open>z\<close> writes an archive with
  the member names of \<open>z\<close> in the same order and the same contents, every member with
  the compression method DEFLATE.
\<close>

theorem encode_decode_roundtrip:
  assumes "ZipFile_r lib z = Inr (readable ms)"
    and "\<forall>m\<in>set ms. \<not> is_xml (filename (fst m))"
    and "py_mod (gettext lib (Str encoded_fmt)) (kw_filename kw) = Inr msg1"
    and "py_mod (gettext lib (Str decoded_fmt)) (kw_filename kw) = Inr msg2"
    and "encode_members (readable ms) (ZipFile_w ZIP_STORED) = Inr w1"
    and "ZipFile_r lib (getvalue lib w1) = Inr (readable ms')"
    and "map (\<lambda>m. filename (fst m)) ms' = map (\<lambda>m. filename (fst m)) (filelist w1)"
    and "map snd ms' = map snd (filelist w1)"
  shows "\<exists>w2. zipdocencode lib z cmd kw = (Inr (getvalue lib w1), ui kw @ [Debug msg1])
           \<and> decode_members (readable ms') (ZipFile_w ZIP_DEFLATED) = Inr w2
           \<and> zipdocdecode lib (getvalue lib w1) cmd (kw\<lparr>ui := ui kw @ [Debug msg1]\<rparr>)
               = (Inr (getvalue lib w2), ui kw @ [Debug msg1, Debug msg2])
           \<and> map (\<lambda>m. filename (fst m)) (filelist w2) = map (\<lambda>m. filename (fst m)) ms
           \<and> map snd (filelist w2) = map snd ms
           \<and> (\<forall>m\<in>set (filelist w2). compress_type (fst m) = ZIP_DEFLATED)"
proof -
  define w2 where "w2 = \<lparr>compression = ZIP_DEFLATED, filelist = map deflated_member ms'\<rparr>"
  have w1: "w1 = \<lparr>compression = ZIP_STORED, filelist = map stored_member ms\<rparr>"
    using assms(5) by (simp add: encode_members_fresh)
  have loop2: "decode_members (readable ms') (ZipFile_w ZIP_DEFLATED) = Inr w2"
    by (simp add: decode_members_fresh w2_def)
  have enc: "zipdocencode lib z cmd kw = (Inr (getvalue lib w1), ui kw @ [Debug msg1])"
    using assms(1,3,5) by (rule zipdocencode_readable)
  have "py_mod (gettext lib (Str decoded_fmt)) (kw_filename (kw\<lparr>ui := ui kw @ [Debug msg1]\<rparr>))
      = Inr msg2"
    using assms(4) by simp
  with assms(6) have "zipdocdecode lib (getvalue lib w1) cmd (kw\<lparr>ui := ui kw @ [Debug msg1]\<rparr>)
      = (Inr (getvalue lib w2), ui (kw\<lparr>ui := ui kw @ [Debug msg1]\<rparr>) @ [Debug msg2])"
    using loop2 by (rule zipdocdecode_readable)
  then have dec: "zipdocdecode lib (getvalue lib w1) cmd (kw\<lparr>ui := ui kw @ [Debug msg1]\<rparr>)
      = (Inr (getvalue lib w2), ui kw @ [Debug msg1, Debug msg2])"
    by simp
  have names': "map (\<lambda>m. filename (fst m)) ms' = map (\<lambda>m. filename (fst m)) ms"
    using assms(7) by (simp add: w1 stored_member_simps)
  have "map snd (map stored_member ms) = map snd ms"
    using assms(2) by (simp add: stored_member_simps)
  with assms(8) have contents': "map snd ms' = map snd ms"
    by (simp add: w1)
  have other: "\<not> is_xml (filename (fst m))" if "m \<in> set ms'" for m
  proof -
    from that have "filename (fst m) \<in> set (map (\<lambda>m. filename (fst m)) ms')"
      by (simp add: image_iff) blast
    then have "filename (fst m) \<in> set (map (\<lambda>m. filename (fst m)) ms)"
      by (simp only: names')
    then obtain m0 where "m0 \<in> set ms" "filename (fst m) = filename (fst m0)"
      by auto
    with assms(2) show ?thesis by simp
  qed
  have "map (\<lambda>m. filename (fst m)) (map deflated_member ms') = map (\<lambda>m. filename (fst m)) ms'"
    by (simp add: deflated_member_simps)
  with names' have names: "map (\<lambda>m. filename (fst m)) (filelist w2) = map (\<lambda>m. filename (fst m)) ms"
    by (simp only: w2_def zipfile_w.simps)
  have "map snd (map deflated_member ms') = map snd ms'"
    using other by (simp add: deflated_member_simps)
  with contents' have contents: "map snd (filelist w2) = map snd ms"
    by (simp add: w2_def)
  have methods: "\<forall>m\<in>set (filelist w2). compress_type (fst m) = ZIP_DEFLATED"
    by (auto simp: w2_def deflated_member_simps)
  from enc loop2 dec names contents methods show ?thesis
    by (intro exI [of _ w2] conjI)
qed

theorem encode_decode_roundtrip_witness:
  "ZipFile_r demo_library (demo_bytes pics_members) = Inr (readable pics_members)
   \<and> map (\<lambda>m. is_xml (filename (fst m))) pics_members = [False, False, False]
   \<and> zipdocencode demo_library (demo_bytes pics_members) (Bytes []) demo_kwargs
       = (Inr (demo_bytes pics_stored_members), [Debug (Bytes (''zipdoc: Encoded report.docx'' @ [CHR 0x0A]))])
   \<and> ZipFile_r demo_library (demo_bytes pics_stored_members) = Inr (readable pics_stored_members)
   \<and> (\<exists>w2. zipdocdecode demo_library (demo_bytes pics_stored_members) (Bytes [])
               (demo_kwargs\<lparr>ui := [Debug (Bytes (''zipdoc: Encoded report.docx'' @ [CHR 0x0A]))]\<rparr>)
             = (Inr (getvalue demo_library w2), [Debug (Bytes (''zipdoc: Encoded report.docx'' @ [CHR 0x0A])), Debug (Bytes (''zipdoc: Decoded report.docx'' @ [CHR 0x0A]))])
          \<and> map (\<lambda>m. filename (fst m)) (filelist w2) = [''image.png'', ''Notes.XML.bak'', ''image.png'']
          \<and> map snd (filelist w2) = [''first'', ''<n><m/></n>'', ''second''])"
proof -
  define w1 where "w1 = \<lparr>compression = ZIP_STORED, filelist = pics_stored_members\<rparr>"
  note h = demo_open_pics
  have x1: "\<not> is_xml ''image.png''" by code_simp
  have x2: "\<not> is_xml ''Notes.XML.bak''" by code_simp
  have x: "\<forall>m\<in>set pics_members. \<not> is_xml (filename (fst m))"
    using x1 x2 by (simp add: pics_members_def demo_info_def)
  have loop: "encode_members (readable pics_members) (ZipFile_w ZIP_STORED) = Inr w1"
    by (simp add: encode_members_fresh w1_def demo_stored_pics)
  have g: "getvalue demo_library w1 = demo_bytes pics_stored_members"
    by (simp add: demo_getvalue w1_def)
  have r: "ZipFile_r demo_library (getvalue demo_library w1) = Inr (readable pics_stored_members)"
    unfolding g by (rule demo_open_pics_stored)
  have rb: "map (\<lambda>m. filename (fst m)) pics_stored_members = map (\<lambda>m. filename (fst m)) (filelist w1)"
    "map snd pics_stored_members = map snd (filelist w1)"
    by (simp_all add: w1_def)
  have n: "map (\<lambda>m. filename (fst m)) pics_members = [''image.png'', ''Notes.XML.bak'', ''image.png'']"
    "map snd pics_members = [''first'', ''<n><m/></n>'', ''second'']"
    by (simp_all add: pics_members_def demo_info_def)
  from encode_decode_roundtrip [OF h x demo_encoded_msg demo_decoded_msg loop r rb, of "Bytes []"]
  obtain w2 where w2:
    "zipdocencode demo_library (demo_bytes pics_members) (Bytes []) demo_kwargs
       = (Inr (getvalue demo_library w1), ui demo_kwargs @ [Debug (Bytes (''zipdoc: Encoded report.docx'' @ [CHR 0x0A]))])"
    "zipdocdecode demo_library (getvalue demo_library w1) (Bytes [])
         (demo_kwargs\<lparr>ui := ui demo_kwargs @ [Debug (Bytes (''zipdoc: Encoded report.docx'' @ [CHR 0x0A]))]\<rparr>)
       = (Inr (getvalue demo_library w2),
          ui demo_kwargs @ [Debug (Bytes (''zipdoc: Encoded report.docx'' @ [CHR 0x0A])), Debug (Bytes (''zipdoc: Decoded report.docx'' @ [CHR 0x0A]))])"
    "map (\<lambda>m. filename (fst m)) (filelist w2) = map (\<lambda>m. filename (fst m)) pics_members"
    "map snd (filelist w2) = map snd pics_members"
    by blast
  have u: "ui demo_kwargs = []"
    by (simp add: demo_kwargs_def)
  from w2(1) have e: "zipdocencode demo_library (demo_bytes pics_members) (Bytes []) demo_kwargs
       = (Inr (demo_bytes pics_stored_members), [Debug (Bytes (''zipdoc: Encoded report.docx'' @ [CHR 0x0A]))])"
    by (simp add: g u)
  from w2(2) have d: "zipdocdecode demo_library (demo_bytes pics_stored_members) (Bytes [])
               (demo_kwargs\<lparr>ui := [Debug (Bytes (''zipdoc: Encoded report.docx'' @ [CHR 0x0A]))]\<rparr>)
             = (Inr (getvalue demo_library w2), [Debug (Bytes (''zipdoc: Encoded report.docx'' @ [CHR 0x0A])), Debug (Bytes (''zipdoc: Decoded report.docx'' @ [CHR 0x0A]))])"
    by (simp add: g u)
  from w2(3,4) n have l:
    "map (\<lambda>m. filename (fst m)) (filelist w2) = [''image.png'', ''Notes.XML.bak'', ''image.png'']"
    "map snd (filelist w2) = [''first'', ''<n><m/></n>'', ''second'']"
    by simp_all
  show ?thesis
  proof (intro conjI)
    show "\<exists>w2. zipdocdecode demo_library (demo_bytes pics_stored_members) (Bytes [])
               (demo_kwargs\<lparr>ui := [Debug (Bytes (''zipdoc: Encoded report.docx'' @ [CHR 0x0A]))]\<rparr>)
             = (Inr (getvalue demo_library w2), [Debug (Bytes (''zipdoc: Encoded report.docx'' @ [CHR 0x0A])), Debug (Bytes (''zipdoc: Decoded report.docx'' @ [CHR 0x0A]))])
          \<and> map (\<lambda>m. filename (fst m)) (filelist w2) = [''image.png'', ''Notes.XML.bak'', ''image.png'']
          \<and> map snd (filelist w2) = [''first'', ''<n><m/></n>'', ''second'']"
      using d l by (intro exI [of _ w2] conjI)
    show "map (\<lambda>m. is_xml (filename (fst m))) pics_members = [False, False, False]"
      using x1 x2 by (simp add: pics_members_def demo_info_def)
  qed (rule h e demo_open_pics_stored)+
qed

text \<open>
  Claim C3, as stated, asks for \<open>join (split x) = x\<close> for all \<open>x\<close>. The input \<^verbatim>\<open>>\r\n <\<close>
  itself refutes that: it contains no \<^verbatim>\<open>><\<close>, so the split leaves it alone, and the join
  collapses it to \<^verbatim>\<open>><\<close>.
\<close>

theorem join_split_all_counterexample:
  "join_lines (split_lines [CHR ''>'', CHR 0x0D, CHR 0x0A, CHR '' '', CHR ''<''])
     \<noteq> [CHR ''>'', CHR 0x0D, CHR 0x0A, CHR '' '', CHR ''<'']"
proof -
  have "split_lines tags_split = tags_split"
    unfolding split_lines_def
    by (rule replace_absent) (simp_all add: tags_adjacent_def tags_split_def sublist_Cons_right)
  moreover have "join_lines tags_split = tags_adjacent"
    using join_match [of "[]"] by (simp add: join_Nil)
  ultimately show ?thesis
    by (simp add: tags_split_def tags_adjacent_def)
qed

text \<open>
  Claim C3, amended. \<open>join (split x) = x\<close> holds for every \<open>x\<close> in which \<^verbatim>\<open>>\r\n <\<close> does
  not occur, and \<open>split (join y) = y\<close> holds for every \<open>y\<close> that is the split of some
  input.
\<close>

theorem split_join_inverse:
  "(\<not> sublist tags_split x \<longrightarrow> join_lines (split_lines x) = x)
   \<and> (y = split_lines z \<longrightarrow> split_lines (join_lines y) = y)"
  using join_split_absent split_join_absent [OF split_no_adjacent] by blast

theorem split_join_inverse_witness:
  "(\<not> sublist tags_split ''<p><q/>'' \<and> join_lines (split_lines ''<p><q/>'') = ''<p><q/>'')
   \<and> (tags_split = split_lines ''><'' \<and> split_lines (join_lines tags_split) = tags_split)"
proof -
  have h: "\<not> sublist tags_split ''<p><q/>''"
    by (simp add: tags_split_def sublist_Cons_right)
  have g: "tags_split = split_lines ''><''"
    using split_match [of "[]"] by (simp add: split_Nil)
  from h g split_join_inverse [of "''<p><q/>''" tags_split "''><''"] show ?thesis by simp
qed

text \<open>
  Claim C4. For a valid archive, \<^verbatim>\<open>zipdocencode\<close> writes every member whose lower-cased
  name ends with \<^verbatim>\<open>.xml\<close> with each \<^verbatim>\<open>><\<close> of its content replaced by \<^verbatim>\<open>>\r\n <\<close>; a
  content \<^verbatim>\<open><a><b/></a>\<close> comes out as \<^verbatim>\<open><a>\r\n <b/>\r\n </a>\<close>. (The replacement is
  the literal of line 148, five bytes long.)
\<close>

theorem encode_writes_split_xml:
  assumes "ZipFile_r lib s = Inr (readable ms)"
    and "py_mod (gettext lib (Str encoded_fmt)) (kw_filename kw) = Inr msg"
  shows "\<exists>w. encode_members (readable ms) (ZipFile_w ZIP_STORED) = Inr w
           \<and> zipdocencode lib s cmd kw = (Inr (getvalue lib w), ui kw @ [Debug msg])
           \<and> length (filelist w) = length ms
           \<and> (\<forall>k<length ms. is_xml (filename (fst (ms ! k))) \<longrightarrow>
                 snd (filelist w ! k) = replace tags_adjacent tags_split (snd (ms ! k)))
           \<and> (\<forall>k<length ms. is_xml (filename (fst (ms ! k))) \<and> snd (ms ! k) = ''<a><b/></a>'' \<longrightarrow>
                 snd (filelist w ! k) =
                   ''<a>'' @ [CHR 0x0D, CHR 0x0A] @ '' <b/>'' @ [CHR 0x0D, CHR 0x0A] @ '' </a>'')"
proof -
  define w where "w = \<lparr>compression = ZIP_STORED, filelist = map stored_member ms\<rparr>"
  have loop: "encode_members (readable ms) (ZipFile_w ZIP_STORED) = Inr w"
    by (simp add: encode_members_fresh w_def)
  have ex: "replace tags_adjacent tags_split ''<a><b/></a>'' =
      ''<a>'' @ [CHR 0x0D, CHR 0x0A] @ '' <b/>'' @ [CHR 0x0D, CHR 0x0A] @ '' </a>''"
    by (simp add: replace.simps tags_adjacent_def tags_split_def)
  have "zipdocencode lib s cmd kw = (Inr (getvalue lib w), ui kw @ [Debug msg])"
    using assms loop by (rule zipdocencode_readable)
  moreover have "length (filelist w) = length ms"
    by (simp add: w_def)
  moreover have "\<forall>k<length ms. is_xml (filename (fst (ms ! k))) \<longrightarrow>
      snd (filelist w ! k) = replace tags_adjacent tags_split (snd (ms ! k))"
    by (simp add: w_def stored_member_def)
  moreover have "\<forall>k<length ms. is_xml (filename (fst (ms ! k))) \<and> snd (ms ! k) = ''<a><b/></a>'' \<longrightarrow>
      snd (filelist w ! k) =
        ''<a>'' @ [CHR 0x0D, CHR 0x0A] @ '' <b/>'' @ [CHR 0x0D, CHR 0x0A] @ '' </a>''"
    using ex by (simp add: w_def stored_member_def)
  ultimately show ?thesis using loop by blast
qed

theorem encode_writes_split_xml_witness:
  "ZipFile_r demo_library (demo_bytes docx_members) = Inr (readable docx_members)
   \<and> zipdocencode demo_library (demo_bytes docx_members) (Bytes []) demo_kwargs
       = (Inr (demo_bytes docx_stored_members), [Debug (Bytes (''zipdoc: Encoded report.docx'' @ [CHR 0x0A]))])
   \<and> (\<exists>w. encode_members (readable docx_members) (ZipFile_w ZIP_STORED) = Inr w
          \<and> snd (filelist w ! 0) =
              ''<a>'' @ [CHR 0x0D, CHR 0x0A] @ '' <b/>'' @ [CHR 0x0D, CHR 0x0A] @ '' </a>'')"
proof -
  note h = demo_open_docx
  have x: "is_xml (filename (fst (docx_members ! 0)))"
    by (simp add: docx_members_def demo_info_def) code_simp
  have c: "snd (docx_members ! 0) = ''<a><b/></a>''"
    by (simp add: docx_members_def)
  have n: "length docx_members = 2"
    by (simp add: docx_members_def)
  from encode_writes_split_xml [OF h demo_encoded_msg, of "Bytes []"]
  obtain w where w: "encode_members (readable docx_members) (ZipFile_w ZIP_STORED) = Inr w"
    "zipdocencode demo_library (demo_bytes docx_members) (Bytes []) demo_kwargs
       = (Inr (getvalue demo_library w), ui demo_kwargs @ [Debug (Bytes (''zipdoc: Encoded report.docx'' @ [CHR 0x0A]))])"
    "\<forall>k<length docx_members. is_xml (filename (fst (docx_members ! k)))
         \<and> snd (docx_members ! k) = ''<a><b/></a>'' \<longrightarrow>
       snd (filelist w ! k) =
         ''<a>'' @ [CHR 0x0D, CHR 0x0A] @ '' <b/>'' @ [CHR 0x0D, CHR 0x0A] @ '' </a>''"
    by blast
  from w(3) x c n have s: "snd (filelist w ! 0) =
      ''<a>'' @ [CHR 0x0D, CHR 0x0A] @ '' <b/>'' @ [CHR 0x0D, CHR 0x0A] @ '' </a>''"
    by simp
  from w(1) have "filelist w = docx_stored_members"
    by (simp add: encode_members_fresh demo_stored_docx)
  then have "getvalue demo_library w = demo_bytes docx_stored_members"
    by (simp add: demo_getvalue)
  with w(2) have e: "zipdocencode demo_library (demo_bytes docx_members) (Bytes []) demo_kwargs
       = (Inr (demo_bytes docx_stored_members), [Debug (Bytes (''zipdoc: Encoded report.docx'' @ [CHR 0x0A]))])"
    by (simp add: demo_kwargs_def)
  from w(1) s have "\<exists>w. encode_members (readable docx_members) (ZipFile_w ZIP_STORED) = Inr w
          \<and> snd (filelist w ! 0) =
              ''<a>'' @ [CHR 0x0D, CHR 0x0A] @ '' <b/>'' @ [CHR 0x0D, CHR 0x0A] @ '' </a>''"
    by (intro exI [of _ w] conjI)
  with h e show ?thesis by (intro conjI)
qed

text \<open>
  Claim C5. For a valid archive, \<^verbatim>\<open>zipdocdecode\<close> writes every member whose lower-cased
  name ends with \<^verbatim>\<open>.xml\<close> with each \<^verbatim>\<open>>\r\n <\<close> of its content replaced by \<^verbatim>\<open>><\<close>.
\<close>

theorem decode_writes_joined_xml:
  assumes "ZipFile_r lib s = Inr (readable ms)"
    and "py_mod (gettext lib (Str decoded_fmt)) (kw_filename kw) = Inr msg"
  shows "\<exists>w. decode_members (readable ms) (ZipFile_w ZIP_DEFLATED) = Inr w
           \<and> zipdocdecode lib s cmd kw = (Inr (getvalue lib w), ui kw @ [Debug msg])
           \<and> length (filelist w) = length ms
           \<and> (\<forall>k<length ms. is_xml (filename (fst (ms ! k))) \<longrightarrow>
                 snd (filelist w ! k) = replace tags_split tags_adjacent (snd (ms ! k)))"
proof -
  define w where "w = \<lparr>compression = ZIP_DEFLATED, filelist = map deflated_member ms\<rparr>"
  have loop: "decode_members (readable ms) (ZipFile_w ZIP_DEFLATED) = Inr w"
    by (simp add: decode_members_fresh w_def)
  have "zipdocdecode lib s cmd kw = (Inr (getvalue lib w), ui kw @ [Debug msg])"
    using assms loop by (rule zipdocdecode_readable)
  moreover have "length (filelist w) = length ms"
    by (simp add: w_def)
  moreover have "\<forall>k<length ms. is_xml (filename (fst (ms ! k))) \<longrightarrow>
      snd (filelist w ! k) = replace tags_split tags_adjacent (snd (ms ! k))"
    by (simp add: w_def deflated_member_simps)
  ultimately show ?thesis using loop by blast
qed

theorem decode_writes_joined_xml_witness:
  "ZipFile_r demo_library (demo_bytes docx_stored_members) = Inr (readable docx_stored_members)
   \<and> is_xml (filename (fst (docx_stored_members ! 0)))
   \<and> (\<exists>w. decode_members (readable docx_stored_members) (ZipFile_w ZIP_DEFLATED) = Inr w
          \<and> zipdocdecode demo_library (demo_bytes docx_stored_members) (Bytes []) demo_kwargs
              = (Inr (getvalue demo_library w), [Debug (Bytes (''zipdoc: Decoded report.docx'' @ [CHR 0x0A]))])
          \<and> snd (filelist w ! 0) = ''<a><b/></a>'')"
proof -
  note h = demo_open_docx_stored
  have x: "is_xml (filename (fst (docx_stored_members ! 0)))"
    by (simp add: docx_stored_members_def demo_info_def) code_simp
  have j: "replace tags_split tags_adjacent (snd (docx_stored_members ! 0)) = ''<a><b/></a>''"
    by (simp add: docx_stored_members_def replace.simps tags_adjacent_def tags_split_def)
  have n: "0 < length docx_stored_members"
    by (simp add: docx_stored_members_def)
  from decode_writes_joined_xml [OF h demo_decoded_msg, of "Bytes []"]
  obtain w where w:
    "decode_members (readable docx_stored_members) (ZipFile_w ZIP_DEFLATED) = Inr w"
    "zipdocdecode demo_library (demo_bytes docx_stored_members) (Bytes []) demo_kwargs
       = (Inr (getvalue demo_library w), ui demo_kwargs @ [Debug (Bytes (''zipdoc: Decoded report.docx'' @ [CHR 0x0A]))])"
    "\<forall>k<length docx_stored_members. is_xml (filename (fst (docx_stored_members ! k))) \<longrightarrow>
       snd (filelist w ! k) = replace tags_split tags_adjacent (snd (docx_stored_members ! k))"
    by blast
  from w(3) n x j have s: "snd (filelist w ! 0) = ''<a><b/></a>''"
    by simp
  from w(2) have d: "zipdocdecode demo_library (demo_bytes docx_stored_members) (Bytes []) demo_kwargs
       = (Inr (getvalue demo_library w), [Debug (Bytes (''zipdoc: Decoded report.docx'' @ [CHR 0x0A]))])"
    by (simp add: demo_kwargs_def)
  from w(1) d s have "\<exists>w. decode_members (readable docx_stored_members) (ZipFile_w ZIP_DEFLATED) = Inr w
          \<and> zipdocdecode demo_library (demo_bytes docx_stored_members) (Bytes []) demo_kwargs
              = (Inr (getvalue demo_library w), [Debug (Bytes (''zipdoc: Decoded report.docx'' @ [CHR 0x0A]))])
          \<and> snd (filelist w ! 0) = ''<a><b/></a>''"
    by (intro exI [of _ w] conjI)
  with h x show ?thesis by (intro conjI)
qed

text \<open>
  Claim C6 says that both filters return a buffer that is not a ZIP archive unchanged,
  with one note. \<^verbatim>\<open>zipdocdecode\<close> does (lemma \<open>zipdocdecode_skip\<close>), and so does
  \<^verbatim>\<open>zipdocencode\<close> when the file name is a \<^verbatim>\<open>str\<close> (lemma \<open>zipdocencode_skip_str\<close>). When
  the file name is a \<^verbatim>\<open>bytes\<close> object, line 130 adds it to a \<^verbatim>\<open>str\<close>: the handler raises
  \<^verbatim>\<open>TypeError\<close>, nothing is returned and the sink receives no note.
\<close>

theorem encode_skip_raises:
  assumes "ZipFile_r lib s = Inl BadZipfile" and "kw_filename kw = Bytes name"
  shows "zipdocencode lib s cmd kw = (Inl TypeError, ui kw)"
  using assms by (simp add: zipdocencode_def skipped_encoding_msg_def)

theorem encode_skip_raises_witness:
  "ZipFile_r demo_library ''not a zip'' = Inl BadZipfile
   \<and> zipdocencode demo_library ''not a zip'' (Bytes []) \<lparr>ui = [], kw_filename = Bytes ''link.docx''\<rparr>
       = (Inl TypeError, [])"
proof -
  note h = demo_open_other
  from h encode_skip_raises [OF h, of "\<lparr>ui = [], kw_filename = Bytes ''link.docx''\<rparr>" "''link.docx''" "Bytes []"]
  show ?thesis by simp
qed

text \<open>
  Claim C7. For a valid archive, every member that \<^verbatim>\<open>zipdocencode\<close> writes has the
  compression method STORE, and every member that \<^verbatim>\<open>zipdocdecode\<close> writes has DEFLATE.
\<close>

theorem compression_policy:
  assumes "ZipFile_r lib s = Inr (readable ms)"
    and "py_mod (gettext lib (Str encoded_fmt)) (kw_filename kw) = Inr msg1"
    and "py_mod (gettext lib (Str decoded_fmt)) (kw_filename kw) = Inr msg2"
  shows "\<exists>w1 w2. encode_members (readable ms) (ZipFile_w ZIP_STORED) = Inr w1
           \<and> zipdocencode lib s cmd kw = (Inr (getvalue lib w1), ui kw @ [Debug msg1])
           \<and> (\<forall>m\<in>set (filelist w1). compress_type (fst m) = ZIP_STORED)
           \<and> decode_members (readable ms) (ZipFile_w ZIP_DEFLATED) = Inr w2
           \<and> zipdocdecode lib s cmd kw = (Inr (getvalue lib w2), ui kw @ [Debug msg2])
           \<and> (\<forall>m\<in>set (filelist w2). compress_type (fst m) = ZIP_DEFLATED)"
proof -
  define w1 where "w1 = \<lparr>compression = ZIP_STORED, filelist = map stored_member ms\<rparr>"
  define w2 where "w2 = \<lparr>compression = ZIP_DEFLATED, filelist = map deflated_member ms\<rparr>"
  have loop1: "encode_members (readable ms) (ZipFile_w ZIP_STORED) = Inr w1"
    by (simp add: encode_members_fresh w1_def)
  have loop2: "decode_members (readable ms) (ZipFile_w ZIP_DEFLATED) = Inr w2"
    by (simp add: decode_members_fresh w2_def)
  have "zipdocencode lib s cmd kw = (Inr (getvalue lib w1), ui kw @ [Debug msg1])"
    using assms(1,2) loop1 by (rule zipdocencode_readable)
  moreover have "zipdocdecode lib s cmd kw = (Inr (getvalue lib w2), ui kw @ [Debug msg2])"
    using assms(1,3) loop2 by (rule zipdocdecode_readable)
  moreover have "\<forall>m\<in>set (filelist w1). compress_type (fst m) = ZIP_STORED"
    by (auto simp: w1_def stored_member_simps ZIP_STORED_def)
  moreover have "\<forall>m\<in>set (filelist w2). compress_type (fst m) = ZIP_DEFLATED"
    by (auto simp: w2_def deflated_member_simps)
  ultimately show ?thesis using loop1 loop2 by blast
qed

theorem compression_policy_witness:
  "ZipFile_r demo_library (demo_bytes docx_members) = Inr (readable docx_members)
   \<and> (\<exists>w1 w2. encode_members (readable docx_members) (ZipFile_w ZIP_STORED) = Inr w1
          \<and> decode_members (readable docx_members) (ZipFile_w ZIP_DEFLATED) = Inr w2
          \<and> map (\<lambda>m. compress_type (fst m)) (filelist w1) = [ZIP_STORED, ZIP_STORED]
          \<and> map (\<lambda>m. compress_type (fst m)) (filelist w2) = [ZIP_DEFLATED, ZIP_DEFLATED])"
proof -
  note h = demo_open_docx
  from compression_policy [OF h demo_encoded_msg demo_decoded_msg, of "Bytes []"]
  obtain w1 w2 where w:
    "encode_members (readable docx_members) (ZipFile_w ZIP_STORED) = Inr w1"
    "decode_members (readable docx_members) (ZipFile_w ZIP_DEFLATED) = Inr w2"
    "\<forall>m\<in>set (filelist w1). compress_type (fst m) = ZIP_STORED"
    "\<forall>m\<in>set (filelist w2). compress_type (fst m) = ZIP_DEFLATED"
    by blast
  from w(1) have "length (filelist w1) = 2"
    by (auto simp: encode_members_fresh docx_members_def)
  then obtain a b where l1: "filelist w1 = [a, b]"
    by (auto simp: length_Suc_conv numeral_2_eq_2)
  from w(2) have "length (filelist w2) = 2"
    by (auto simp: decode_members_fresh docx_members_def)
  then obtain c d where l2: "filelist w2 = [c, d]"
    by (auto simp: length_Suc_conv numeral_2_eq_2)
  from w(3) l1 have "map (\<lambda>m. compress_type (fst m)) (filelist w1) = [ZIP_STORED, ZIP_STORED]"
    by simp
  moreover from w(4) l2
  have "map (\<lambda>m. compress_type (fst m)) (filelist w2) = [ZIP_DEFLATED, ZIP_DEFLATED]"
    by simp
  ultimately show ?thesis using h w(1,2)
    by (intro conjI exI [of _ w1] exI [of _ w2])
qed

text \<open>
  Claim C8. For a valid archive, the member names written by either filter are the
  member names of the input, as a sequence: same order, repeated names repeated.
\<close>

theorem member_names_preserved:
  assumes "ZipFile_r lib s = Inr (readable ms)"
    and "py_mod (gettext lib (Str encoded_fmt)) (kw_filename kw) = Inr msg1"
    and "py_mod (gettext lib (Str decoded_fmt)) (kw_filename kw) = Inr msg2"
  shows "\<exists>w1 w2. encode_members (readable ms) (ZipFile_w ZIP_STORED) = Inr w1
           \<and> zipdocencode lib s cmd kw = (Inr (getvalue lib w1), ui kw @ [Debug msg1])
           \<and> map (\<lambda>m. filename (fst m)) (filelist w1) = map (\<lambda>m. filename (fst m)) ms
           \<and> decode_members (readable ms) (ZipFile_w ZIP_DEFLATED) = Inr w2
           \<and> zipdocdecode lib s cmd kw = (Inr (getvalue lib w2), ui kw @ [Debug msg2])
           \<and> map (\<lambda>m. filename (fst m)) (filelist w2) = map (\<lambda>m. filename (fst m)) ms"
proof -
  define w1 where "w1 = \<lparr>compression = ZIP_STORED, filelist = map stored_member ms\<rparr>"
  define w2 where "w2 = \<lparr>compression = ZIP_DEFLATED, filelist = map deflated_member ms\<rparr>"
  have loop1: "encode_members (readable ms) (ZipFile_w ZIP_STORED) = Inr w1"
    by (simp add: encode_members_fresh w1_def)
  have loop2: "decode_members (readable ms) (ZipFile_w ZIP_DEFLATED) = Inr w2"
    by (simp add: decode_members_fresh w2_def)
  have "zipdocencode lib s cmd kw = (Inr (getvalue lib w1), ui kw @ [Debug msg1])"
    using assms(1,2) loop1 by (rule zipdocencode_readable)
  moreover have "zipdocdecode lib s cmd kw = (Inr (getvalue lib w2), ui kw @ [Debug msg2])"
    using assms(1,3) loop2 by (rule zipdocdecode_readable)
  moreover have "map (\<lambda>m. filename (fst m)) (filelist w1) = map (\<lambda>m. filename (fst m)) ms"
    by (simp add: w1_def stored_member_simps)
  moreover have "map (\<lambda>m. filename (fst m)) (filelist w2) = map (\<lambda>m. filename (fst m)) ms"
    by (simp add: w2_def deflated_member_simps)
  ultimately show ?thesis using loop1 loop2 by blast
qed

theorem member_names_preserved_witness:
  "ZipFile_r demo_library (demo_bytes pics_members) = Inr (readable pics_members)
   \<and> (\<exists>w1 w2. encode_members (readable pics_members) (ZipFile_w ZIP_STORED) = Inr w1
          \<and> decode_members (readable pics_members) (ZipFile_w ZIP_DEFLATED) = Inr w2
          \<and> map (\<lambda>m. filename (fst m)) (filelist w1) = [''image.png'', ''Notes.XML.bak'', ''image.png'']
          \<and> map (\<lambda>m. filename (fst m)) (filelist w2) = [''image.png'', ''Notes.XML.bak'', ''image.png''])"
proof -
  note h = demo_open_pics
  have n: "map (\<lambda>m. filename (fst m)) pics_members = [''image.png'', ''Notes.XML.bak'', ''image.png'']"
    by (simp add: pics_members_def demo_info_def)
  from member_names_preserved [OF h demo_encoded_msg demo_decoded_msg, of "Bytes []"]
  obtain w1 w2 where w:
    "encode_members (readable pics_members) (ZipFile_w ZIP_STORED) = Inr w1"
    "decode_members (readable pics_members) (ZipFile_w ZIP_DEFLATED) = Inr w2"
    "map (\<lambda>m. filename (fst m)) (filelist w1) = map (\<lambda>m. filename (fst m)) pics_members"
    "map (\<lambda>m. filename (fst m)) (filelist w2) = map (\<lambda>m. filename (fst m)) pics_members"
    by blast
  from w(3,4) have
    "map (\<lambda>m. filename (fst m)) (filelist w1) = [''image.png'', ''Notes.XML.bak'', ''image.png'']"
    "map (\<lambda>m. filename (fst m)) (filelist w2) = [''image.png'', ''Notes.XML.bak'', ''image.png'']"
    by (simp_all only: n)
  with h w(1,2) show ?thesis
    by (intro conjI exI [of _ w1] exI [of _ w2])
qed

text \<open>
  Claim C9, as stated, says that a member whose name does not end with \<^verbatim>\<open>.xml\<close> is
  written with its metadata unchanged but for the compression method. The filters
  change nothing else, but the writer they call does: the thumbnail of the document
  below comes in with flag bits 8 and \<^verbatim>\<open>external_attr\<close> 0 and is written with flag bits 0
  and \<^verbatim>\<open>external_attr\<close> \<^verbatim>\<open>0o600 << 16\<close>, which is 25165824.
\<close>

theorem other_members_metadata_counterexample:
  "zipdocencode demo_library (demo_bytes docx_members) (Bytes []) demo_kwargs
     = (Inr (demo_bytes docx_stored_members), [Debug (Bytes (''zipdoc: Encoded report.docx'' @ [CHR 0x0A]))])
   \<and> encode_members (readable docx_members) (ZipFile_w ZIP_STORED)
       = Inr \<lparr>compression = ZIP_STORED, filelist = docx_stored_members\<rparr>
   \<and> \<not> is_xml (filename (fst (docx_members ! 1)))
   \<and> fst (docx_stored_members ! 1) \<noteq> (fst (docx_members ! 1))\<lparr>compress_type := ZIP_STORED\<rparr>
   \<and> external_attr (fst (docx_members ! 1)) = 0
   \<and> external_attr (fst (docx_stored_members ! 1)) = 25165824
   \<and> flag_bits (fst (docx_members ! 1)) = 8
   \<and> flag_bits (fst (docx_stored_members ! 1)) = 0"
proof -
  have loop: "encode_members (readable docx_members) (ZipFile_w ZIP_STORED)
      = Inr \<lparr>compression = ZIP_STORED, filelist = docx_stored_members\<rparr>"
    by (simp add: encode_members_fresh demo_stored_docx)
  have "zipdocencode demo_library (demo_bytes docx_members) (Bytes []) demo_kwargs
      = (Inr (getvalue demo_library \<lparr>compression = ZIP_STORED, filelist = docx_stored_members\<rparr>),
         ui demo_kwargs @ [Debug (Bytes (''zipdoc: Encoded report.docx'' @ [CHR 0x0A]))])"
    using demo_open_docx demo_encoded_msg loop by (rule zipdocencode_readable)
  then have enc: "zipdocencode demo_library (demo_bytes docx_members) (Bytes []) demo_kwargs
      = (Inr (demo_bytes docx_stored_members), [Debug (Bytes (''zipdoc: Encoded report.docx'' @ [CHR 0x0A]))])"
    by (simp add: demo_getvalue demo_kwargs_def)
  have x: "\<not> is_xml (filename (fst (docx_members ! 1)))"
    by (simp add: docx_members_def demo_info_def) code_simp
  have f: "external_attr (fst (docx_members ! 1)) = 0"
    "external_attr (fst (docx_stored_members ! 1)) = 25165824"
    "flag_bits (fst (docx_members ! 1)) = 8"
    "flag_bits (fst (docx_stored_members ! 1)) = 0"
    by (simp_all add: docx_members_def docx_stored_members_def demo_info_def)
  have d: "fst (docx_stored_members ! 1) \<noteq> (fst (docx_members ! 1))\<lparr>compress_type := ZIP_STORED\<rparr>"
    by (simp add: docx_members_def docx_stored_members_def demo_info_def)
  from enc loop x d f show ?thesis by (intro conjI)
qed

text \<open>
  Claim C9, amended. For a valid archive, either filter writes a member whose
  lower-cased name does not end with \<^verbatim>\<open>.xml\<close> with its content unchanged and under its
  name; in its \<^verbatim>\<open>ZipInfo\<close> the compression method is the filter's, the flag bits are 0,
  an \<^verbatim>\<open>external_attr\<close> of 0 is replaced by \<^verbatim>\<open>0o600 << 16\<close>, and every other field is
  the original one.
\<close>

theorem other_members_pass_through:
  assumes "ZipFile_r lib s = Inr (readable ms)"
    and "py_mod (gettext lib (Str encoded_fmt)) (kw_filename kw) = Inr msg1"
    and "py_mod (gettext lib (Str decoded_fmt)) (kw_filename kw) = Inr msg2"
  shows "\<exists>w1 w2. encode_members (readable ms) (ZipFile_w ZIP_STORED) = Inr w1
           \<and> zipdocencode lib s cmd kw = (Inr (getvalue lib w1), ui kw @ [Debug msg1])
           \<and> decode_members (readable ms) (ZipFile_w ZIP_DEFLATED) = Inr w2
           \<and> zipdocdecode lib s cmd kw = (Inr (getvalue lib w2), ui kw @ [Debug msg2])
           \<and> length (filelist w1) = length ms \<and> length (filelist w2) = length ms
           \<and> (\<forall>k<length ms. \<not> is_xml (filename (fst (ms ! k))) \<longrightarrow>
                 filelist w1 ! k =
                   ((fst (ms ! k))\<lparr>compress_type := ZIP_STORED, flag_bits := 0,
                       external_attr := (if external_attr (fst (ms ! k)) = 0 then 25165824
                                         else external_attr (fst (ms ! k)))\<rparr>,
                    snd (ms ! k))
               \<and> filelist w2 ! k =
                   ((fst (ms ! k))\<lparr>compress_type := ZIP_DEFLATED, flag_bits := 0,
                       external_attr := (if external_attr (fst (ms ! k)) = 0 then 25165824
                                         else external_attr (fst (ms ! k)))\<rparr>,
                    snd (ms ! k)))"
proof -
  define w1 where "w1 = \<lparr>compression = ZIP_STORED, filelist = map stored_member ms\<rparr>"
  define w2 where "w2 = \<lparr>compression = ZIP_DEFLATED, filelist = map deflated_member ms\<rparr>"
  have loop1: "encode_members (readable ms) (ZipFile_w ZIP_STORED) = Inr w1"
    by (simp add: encode_members_fresh w1_def)
  have loop2: "decode_members (readable ms) (ZipFile_w ZIP_DEFLATED) = Inr w2"
    by (simp add: decode_members_fresh w2_def)
  have enc: "zipdocencode lib s cmd kw = (Inr (getvalue lib w1), ui kw @ [Debug msg1])"
    using assms(1,2) loop1 by (rule zipdocencode_readable)
  have dec: "zipdocdecode lib s cmd kw = (Inr (getvalue lib w2), ui kw @ [Debug msg2])"
    using assms(1,3) loop2 by (rule zipdocdecode_readable)
  have len: "length (filelist w1) = length ms" "length (filelist w2) = length ms"
    by (simp_all add: w1_def w2_def)
  have st: "stored_member m =
      ((fst m)\<lparr>compress_type := ZIP_STORED, flag_bits := 0,
           external_attr := (if external_attr (fst m) = 0 then 25165824 else external_attr (fst m))\<rparr>,
       snd m)"
    if "\<not> is_xml (filename (fst m))" for m
    using that
    by (simp add: stored_member_def open_to_write_changed ZIP_STORED_def ZIP_LZMA_def)
  have de: "deflated_member m =
      ((fst m)\<lparr>compress_type := ZIP_DEFLATED, flag_bits := 0,
           external_attr := (if external_attr (fst m) = 0 then 25165824 else external_attr (fst m))\<rparr>,
       snd m)"
    if "\<not> is_xml (filename (fst m))" for m
    using that
    by (simp add: deflated_member_def open_to_write_changed ZIP_DEFLATED_def ZIP_LZMA_def)
  have each: "\<forall>k<length ms. \<not> is_xml (filename (fst (ms ! k))) \<longrightarrow>
                 filelist w1 ! k =
                   ((fst (ms ! k))\<lparr>compress_type := ZIP_STORED, flag_bits := 0,
                       external_attr := (if external_attr (fst (ms ! k)) = 0 then 25165824
                                         else external_attr (fst (ms ! k)))\<rparr>,
                    snd (ms ! k))
               \<and> filelist w2 ! k =
                   ((fst (ms ! k))\<lparr>compress_type := ZIP_DEFLATED, flag_bits := 0,
                       external_attr := (if external_attr (fst (ms ! k)) = 0 then 25165824
                                         else external_attr (fst (ms ! k)))\<rparr>,
                    snd (ms ! k))"
    using st de by (simp add: w1_def w2_def)
  from loop1 enc loop2 dec len each show ?thesis
    by (intro exI [of _ w1] exI [of _ w2] conjI)
qed

theorem other_members_pass_through_witness:
  "ZipFile_r demo_library (demo_bytes docx_members) = Inr (readable docx_members)
   \<and> \<not> is_xml (filename (fst (docx_members ! 1)))
   \<and> (\<exists>w1 w2. encode_members (readable docx_members) (ZipFile_w ZIP_STORED) = Inr w1
          \<and> decode_members (readable docx_members) (ZipFile_w ZIP_DEFLATED) = Inr w2
          \<and> filelist w1 ! 1 = (demo_info ''docProps/thumbnail.jpeg'' ZIP_STORED 0 25165824, jpeg_bytes)
          \<and> filelist w2 ! 1 = (demo_info ''docProps/thumbnail.jpeg'' ZIP_DEFLATED 0 25165824, jpeg_bytes))"
proof -
  note h = demo_open_docx
  have x: "\<not> is_xml (filename (fst (docx_members ! 1)))"
    by (simp add: docx_members_def demo_info_def) code_simp
  have n: "1 < length docx_members"
    by (simp add: docx_members_def)
  have m: "docx_members ! 1 = (demo_info ''docProps/thumbnail.jpeg'' ZIP_DEFLATED 8 0, jpeg_bytes)"
    by (simp add: docx_members_def)
  from other_members_pass_through [OF h demo_encoded_msg demo_decoded_msg, of "Bytes []"]
  obtain w1 w2 where w:
    "encode_members (readable docx_members) (ZipFile_w ZIP_STORED) = Inr w1"
    "decode_members (readable docx_members) (ZipFile_w ZIP_DEFLATED) = Inr w2"
    "\<forall>k<length docx_members. \<not> is_xml (filename (fst (docx_members ! k))) \<longrightarrow>
                 filelist w1 ! k =
                   ((fst (docx_members ! k))\<lparr>compress_type := ZIP_STORED, flag_bits := 0,
                       external_attr := (if external_attr (fst (docx_members ! k)) = 0 then 25165824
                                         else external_attr (fst (docx_members ! k)))\<rparr>,
                    snd (docx_members ! k))
               \<and> filelist w2 ! k =
                   ((fst (docx_members ! k))\<lparr>compress_type := ZIP_DEFLATED, flag_bits := 0,
                       external_attr := (if external_attr (fst (docx_members ! k)) = 0 then 25165824
                                         else external_attr (fst (docx_members ! k)))\<rparr>,
                    snd (docx_members ! k))"
    by blast
  from w(3) n x have
    "filelist w1 ! 1 =
       ((fst (docx_members ! 1))\<lparr>compress_type := ZIP_STORED, flag_bits := 0,
           external_attr := (if external_attr (fst (docx_members ! 1)) = 0 then 25165824
                             else external_attr (fst (docx_members ! 1)))\<rparr>,
        snd (docx_members ! 1))"
    "filelist w2 ! 1 =
       ((fst (docx_members ! 1))\<lparr>compress_type := ZIP_DEFLATED, flag_bits := 0,
           external_attr := (if external_attr (fst (docx_members ! 1)) = 0 then 25165824
                             else external_attr (fst (docx_members ! 1)))\<rparr>,
        snd (docx_members ! 1))"
    by blast+
  then have "filelist w1 ! 1 = (demo_info ''docProps/thumbnail.jpeg'' ZIP_STORED 0 25165824, jpeg_bytes)"
    "filelist w2 ! 1 = (demo_info ''docProps/thumbnail.jpeg'' ZIP_DEFLATED 0 25165824, jpeg_bytes)"
    using m by (simp_all add: demo_info_def)
  with h x w(1,2) show ?thesis
    by (intro conjI exI [of _ w1] exI [of _ w2])
qed

text \<open>
  Claim C10. The split is idempotent, because its output contains no \<^verbatim>\<open>><\<close> any more.
\<close>

theorem split_idempotent:
  "split_lines (split_lines x) = split_lines x \<and> \<not> sublist tags_adjacent (split_lines x)"
proof -
  have "tags_adjacent \<noteq> []"
    by (simp add: tags_adjacent_def)
  then have "replace tags_adjacent tags_split (split_lines x) = split_lines x"
    using split_no_adjacent by (rule replace_absent)
  then have "split_lines (split_lines x) = split_lines x"
    by (simp add: split_lines_def)
  with split_no_adjacent show ?thesis by simp
qed

end
